theory Spec2Isabelle
  imports Main "HOL-Library.AList"
begin

text \<open>
  A shallow embedding of \<^verbatim>\<open>spark_rapids_ml/params.py\<close>: the class metadata of
  \<^verbatim>\<open>_CumlClass\<close> and the methods of \<^verbatim>\<open>_CumlParams\<close> that keep the table \<^verbatim>\<open>cuml_params\<close>
  in step with the Spark params, followed by the properties the specification states
  about them.
\<close>

section \<open>Python values, dictionaries and exceptions\<close>

text \<open>
  The parameter values of \<^verbatim>\<open>params.py\<close> have type \<^verbatim>\<open>Any\<close>. The code only stores them,
  compares them with strings and hashes them, so a value is one of the scalars below or
  a list; a list stands for the values Python cannot hash.
\<close>

datatype pyval = PNone | PBool bool | PInt int | PStr string | PList "pyval list"

fun hashable :: "pyval \<Rightarrow> bool" where
  "hashable (PList xs) = False"
| "hashable v = True"

text \<open>
  A \<^verbatim>\<open>dict\<close> with string keys is an association list in insertion order.
  \<^verbatim>\<open>k in d\<close> is \<open>has_key d k\<close>, \<^verbatim>\<open>d[k]\<close> is \<open>map_of d k\<close> and the assignment
  \<^verbatim>\<open>d[k] = v\<close> is \<open>AList.update k v d\<close>: an existing key keeps its place, a new key
  goes to the end.
\<close>

definition has_key :: "(string \<times> 'v) list \<Rightarrow> string \<Rightarrow> bool" where
  "has_key d k = (k \<in> fst ` set d)"

text \<open>
  The exceptions the code can raise. The three \<^verbatim>\<open>ValueError\<close>s of \<^verbatim>\<open>params.py\<close> are told
  apart by their message:
  \<^item> \<open>AliasError cuml_param spark_param\<close>:
    \<^verbatim>\<open>'{cuml_param}' is an alias of '{spark_param}', set one or the other.\<close>
  \<^item> \<open>UnsupportedValue v k supported_values\<close>:
    \<^verbatim>\<open>Value '{v}' for '{k}' param is unsupported, expected: {supported_values}\<close>
  \<^item> \<open>UnsupportedParam k\<close>: \<^verbatim>\<open>Unsupported param '{k}'.\<close>

  \<open>UnhashableType\<close> is the \<^verbatim>\<open>TypeError\<close> of a set membership test on an unhashable
  value, \<open>NotImplementedError\<close> is raised by \<^verbatim>\<open>_CumlClass._cuml_cls\<close>, and the others come
  from the collaborators that are not part of \<^verbatim>\<open>params.py\<close>; \<open>InvalidParamValue k v\<close> is
  the \<^verbatim>\<open>TypeError\<close> of a param's type converter that refuses the value \<open>v\<close>.
\<close>

datatype error =
    AliasError string string
  | UnsupportedValue pyval string "string set"
  | UnsupportedParam string
  | UnhashableType pyval
  | NotImplementedError
  | IntrospectionError
  | AttributeError string
  | InvalidParamValue string pyval
  | KeyError string
  | ParamNotOwned string

text \<open>
  A method that mutates \<^verbatim>\<open>self\<close> and may raise returns the object as the method left it
  together with the exception, if any: what was assigned before a \<^verbatim>\<open>raise\<close> stays
  assigned. \<open>and_then\<close> runs the next statement unless an exception is under way.
\<close>

definition and_then :: "'s \<times> error option \<Rightarrow> ('s \<Rightarrow> 's \<times> error option) \<Rightarrow> 's \<times> error option" where
  "and_then r f = (case r of (s, None) \<Rightarrow> f s | (s, Some e) \<Rightarrow> (s, Some e))"

section \<open>The class metadata: \<^verbatim>\<open>_CumlClass\<close>\<close>

text \<open>
  Modelled from the spec: a native class, as the introspection utility
  \<^verbatim>\<open>spark_rapids_ml.utils._get_default_params_from_func\<close> sees it (the utility is imported
  by \<^verbatim>\<open>params.py\<close> and is not part of the source at hand). The spec: "introspect its
  constructor signature, collect parameter name \<rightarrow> default value pairs"; it "fails if
  the class's constructor cannot be inspected".
\<close>

datatype pyclass = PyClass "(string \<times> pyval) list" | Uninspectable

text \<open>
  The four overridable class methods. \<open>cuml_cls = None\<close> is a class that does not
  override \<^verbatim>\<open>_cuml_cls\<close>, which raises \<^verbatim>\<open>NotImplementedError\<close>.
\<close>

record cuml_class =
  cuml_cls :: "pyclass list option"
  param_excludes :: "string list"
  param_mapping :: "(string \<times> string) list"
  param_value_mapping :: "(string \<times> (string \<times> string option) list) list"

text \<open>
  Modelled from the spec: \<^verbatim>\<open>_get_default_params_from_func(cls_type, excludes)\<close>, the
  spec's \<^verbatim>\<open>defaultsOf(class, excluded)\<close>: the name \<rightarrow> default pairs of the constructor
  "excluding names in \<^verbatim>\<open>excludedNativeParams()\<close>", or IntrospectionError.
\<close>

fun get_default_params_from_func :: "pyclass \<Rightarrow> string list \<Rightarrow> error + (string \<times> pyval) list" where
  "get_default_params_from_func Uninspectable excl = Inl IntrospectionError"
| "get_default_params_from_func (PyClass sig) excl = Inr (filter (\<lambda>p. fst p \<notin> set excl) sig)"

text \<open>\<^verbatim>\<open>params.update(other)\<close>: assign every item of \<open>other\<close>, in order.\<close>

definition dict_update :: "(string \<times> 'v) list \<Rightarrow> (string \<times> 'v) list \<Rightarrow> (string \<times> 'v) list" where
  "dict_update params other = fold (\<lambda>p acc. AList.update (fst p) (snd p) acc) other params"

text \<open>The loop of \<^verbatim>\<open>_get_cuml_params_default\<close> over \<^verbatim>\<open>cls._cuml_cls()\<close>.\<close>

fun collect_defaults :: "string list \<Rightarrow> (string \<times> pyval) list \<Rightarrow> pyclass list \<Rightarrow> error + (string \<times> pyval) list" where
  "collect_defaults excl params [] = Inr params"
| "collect_defaults excl params (cls_type # rest) =
     (case get_default_params_from_func cls_type excl of
        Inl e \<Rightarrow> Inl e
      | Inr d \<Rightarrow> collect_defaults excl (dict_update params d) rest)"

definition get_cuml_params_default :: "cuml_class \<Rightarrow> error + (string \<times> pyval) list" where
  "get_cuml_params_default cfg =
     (case cuml_cls cfg of
        None \<Rightarrow> Inl NotImplementedError
      | Some classes \<Rightarrow> collect_defaults (param_excludes cfg) [] classes)"

section \<open>The instance: Spark params and \<^verbatim>\<open>cuml_params\<close>\<close>

text \<open>
  Modelled from the spec: the orchestration parameter store, the \<^verbatim>\<open>Params\<close> base class of
  pyspark, which \<^verbatim>\<open>params.py\<close> inherits and does not define. The spec lists its operations:
  \<^verbatim>\<open>hasParam(name)\<close>, \<^verbatim>\<open>hasDefault(name)\<close>, \<^verbatim>\<open>getOrDefault(name)\<close>, \<^verbatim>\<open>set(name, value)\<close>,
  \<^verbatim>\<open>clear(name)\<close>. \<open>params\<close> are the names declared as parameters, \<open>defaultParamMap\<close>
  their registered defaults and \<open>paramMap\<close> the values set explicitly. An operation
  on a name that is not a declared parameter fails, and so does \<^verbatim>\<open>getOrDefault\<close> on a
  parameter that has neither a value nor a default. \<open>typeConverter k\<close> is the type
  converter the param \<open>k\<close> was declared with (\<^verbatim>\<open>TypeConverters.toInt\<close> for \<^verbatim>\<open>num_workers\<close>):
  it gives the converted value, or \<open>None\<close> where the converter raises \<^verbatim>\<open>TypeError\<close>.
  \<open>cuml_params\<close> is the field of \<^verbatim>\<open>_CumlParams\<close>, one table per object (the class-level
  default dictionary that objects share until \<^verbatim>\<open>initialize_cuml_params\<close> runs is not
  modelled).
\<close>

record cuml_state =
  params :: "string list"
  typeConverter :: "string \<Rightarrow> pyval \<Rightarrow> pyval option"
  defaultParamMap :: "(string \<times> pyval) list"
  paramMap :: "(string \<times> pyval) list"
  cuml_params :: "(string \<times> pyval) list"

definition hasParam :: "cuml_state \<Rightarrow> string \<Rightarrow> bool" where
  "hasParam self k = (k \<in> set (params self))"

definition hasDefault :: "cuml_state \<Rightarrow> string \<Rightarrow> error + bool" where
  "hasDefault self k =
     (if hasParam self k then Inr (has_key (defaultParamMap self) k) else Inl (AttributeError k))"

definition getOrDefault :: "cuml_state \<Rightarrow> string \<Rightarrow> error + pyval" where
  "getOrDefault self k =
     (if \<not> hasParam self k then Inl (AttributeError k)
      else case map_of (paramMap self) k of
             Some v \<Rightarrow> Inr v
           | None \<Rightarrow> (case map_of (defaultParamMap self) k of
                        Some v \<Rightarrow> Inr v
                      | None \<Rightarrow> Inl (KeyError k)))"

text \<open>
  \<^verbatim>\<open>self._set(**{k: v})\<close>: the name is resolved to its param, a value other than \<^verbatim>\<open>None\<close>
  goes through the param's type converter, and the converted value is stored; when the
  converter raises, nothing is stored.
\<close>

definition store_set :: "cuml_state \<Rightarrow> string \<Rightarrow> pyval \<Rightarrow> cuml_state \<times> error option" where
  "store_set self k v =
     (if \<not> hasParam self k then (self, Some (AttributeError k))
      else if v = PNone then (self\<lparr>paramMap := AList.update k v (paramMap self)\<rparr>, None)
      else (case typeConverter self k v of
              None \<Rightarrow> (self, Some (InvalidParamValue k v))
            | Some v' \<Rightarrow> (self\<lparr>paramMap := AList.update k v' (paramMap self)\<rparr>, None)))"

text \<open>\<^verbatim>\<open>HasNumWorkers.getNumWorkers\<close> and \<^verbatim>\<open>_CumlParams.setNumWorkers\<close>.\<close>

definition getNumWorkers :: "cuml_state \<Rightarrow> error + pyval" where
  "getNumWorkers self = getOrDefault self ''num_workers''"

definition setNumWorkers :: "cuml_state \<Rightarrow> pyval \<Rightarrow> cuml_state \<times> error option" where
  "setNumWorkers self v = store_set self ''num_workers'' v"

definition store_clear :: "cuml_state \<Rightarrow> string \<Rightarrow> cuml_state \<times> error option" where
  "store_clear self k =
     (if hasParam self k then (self\<lparr>paramMap := AList.delete k (paramMap self)\<rparr>, None)
      else (self, Some (ParamNotOwned k)))"

section \<open>\<^verbatim>\<open>_CumlParams._set_cuml_value\<close>\<close>

text \<open>\<^verbatim>\<open>[x for x in xs if x is not None]\<close>\<close>

fun non_none :: "'a option list \<Rightarrow> 'a list" where
  "non_none [] = []"
| "non_none (None # xs) = non_none xs"
| "non_none (Some x # xs) = x # non_none xs"

text \<open>
  \<^verbatim>\<open>v in supported_values\<close> for a hashable \<open>v\<close>: the set holds strings, and only a
  string is equal to a string.
\<close>

fun in_strs :: "pyval \<Rightarrow> string set \<Rightarrow> bool" where
  "in_strs (PStr s) S = (s \<in> S)"
| "in_strs v S = False"

text \<open>
  \<^verbatim>\<open>value_map[k].get(v, None)\<close> for a hashable \<open>v\<close>: the keys are strings; a key that is
  missing and a key that is mapped to \<^verbatim>\<open>None\<close> both give \<^verbatim>\<open>None\<close>.
\<close>

fun dict_get :: "(string \<times> string option) list \<Rightarrow> pyval \<Rightarrow> string option" where
  "dict_get vm (PStr s) = (case map_of vm s of Some t \<Rightarrow> t | None \<Rightarrow> None)"
| "dict_get vm v = None"

text \<open>The truth value of an \<^verbatim>\<open>Optional[str]\<close>: \<^verbatim>\<open>None\<close> and the empty string are false.\<close>

fun truthy :: "string option \<Rightarrow> bool" where
  "truthy None = False"
| "truthy (Some s) = (s \<noteq> [])"

definition set_cuml_value :: "cuml_class \<Rightarrow> cuml_state \<Rightarrow> string \<Rightarrow> pyval \<Rightarrow> cuml_state \<times> error option" where
  "set_cuml_value cfg self k v =
     (case map_of (param_value_mapping cfg) k of
        None \<Rightarrow> (self\<lparr>cuml_params := AList.update k v (cuml_params self)\<rparr>, None)
      | Some vm \<Rightarrow>
          (let supported_values = set (non_none (map snd vm)) in
           if \<not> hashable v then (self, Some (UnhashableType v))
           else if in_strs v supported_values then
             (self\<lparr>cuml_params := AList.update k v (cuml_params self)\<rparr>, None)
           else
             (let mapped_v = dict_get vm v in
              if truthy mapped_v then
                (self\<lparr>cuml_params := AList.update k (PStr (the mapped_v)) (cuml_params self)\<rparr>, None)
              else (self, Some (UnsupportedValue v k supported_values)))))"

section \<open>\<^verbatim>\<open>_CumlParams.initialize_cuml_params\<close>\<close>

fun init_loop :: "cuml_class \<Rightarrow> cuml_state \<Rightarrow> (string \<times> string) list \<Rightarrow> cuml_state \<times> error option" where
  "init_loop cfg self [] = (self, None)"
| "init_loop cfg self ((spark_param, cuml_param) # rest) =
     (case hasDefault self spark_param of
        Inl e \<Rightarrow> (self, Some e)
      | Inr False \<Rightarrow> init_loop cfg self rest
      | Inr True \<Rightarrow>
          (case getOrDefault self spark_param of
             Inl e \<Rightarrow> (self, Some e)
           | Inr v \<Rightarrow> and_then (set_cuml_value cfg self cuml_param v)
                                (\<lambda>s. init_loop cfg s rest)))"

definition initialize_cuml_params :: "cuml_class \<Rightarrow> cuml_state \<Rightarrow> cuml_state \<times> error option" where
  "initialize_cuml_params cfg self =
     (case get_cuml_params_default cfg of
        Inl e \<Rightarrow> (self, Some e)
      | Inr d \<Rightarrow> init_loop cfg (self\<lparr>cuml_params := d\<rparr>) (param_mapping cfg))"

section \<open>\<^verbatim>\<open>_CumlParams.set_params\<close>\<close>

text \<open>The first loop: both sides of a param mapping among the keyword arguments.\<close>

fun check_aliases :: "(string \<times> string) list \<Rightarrow> (string \<times> pyval) list \<Rightarrow> error option" where
  "check_aliases [] kwargs = None"
| "check_aliases ((spark_param, cuml_param) # rest) kwargs =
     (if spark_param \<noteq> cuml_param \<and> has_key kwargs spark_param \<and> has_key kwargs cuml_param
      then Some (AliasError cuml_param spark_param)
      else check_aliases rest kwargs)"

text \<open>The inner loop of the cuml branch: set every Spark param mapped to \<open>k\<close>.\<close>

fun set_spark_aliases :: "cuml_state \<Rightarrow> string \<Rightarrow> pyval \<Rightarrow> (string \<times> string) list \<Rightarrow> cuml_state \<times> error option" where
  "set_spark_aliases self k v [] = (self, None)"
| "set_spark_aliases self k v ((spark_param, cuml_param) # rest) =
     (if k = cuml_param
      then and_then (store_set self spark_param v) (\<lambda>s. set_spark_aliases s k v rest)
      else set_spark_aliases self k v rest)"

text \<open>The body of the second loop, for one item \<open>(k, v)\<close>: three \<^verbatim>\<open>if\<close>s in a row.\<close>

definition set_param :: "cuml_class \<Rightarrow> cuml_state \<Rightarrow> string \<Rightarrow> pyval \<Rightarrow> cuml_state \<times> error option" where
  "set_param cfg self k v =
     and_then
       (if hasParam self k then
          and_then (store_set self k v)
            (\<lambda>s. case map_of (param_mapping cfg) k of
                   Some cuml_param \<Rightarrow> set_cuml_value cfg s cuml_param v
                 | None \<Rightarrow> (s, None))
        else (self, None))
       (\<lambda>s1. and_then
          (if has_key (cuml_params s1) k \<and> \<not> hasParam s1 k then
             set_spark_aliases (s1\<lparr>cuml_params := AList.update k v (cuml_params s1)\<rparr>) k v
               (param_mapping cfg)
           else (s1, None))
          (\<lambda>s2. if \<not> hasParam s2 k \<and> \<not> has_key (param_mapping cfg) k
                    \<and> \<not> has_key (cuml_params s2) k
                 then (s2, Some (UnsupportedParam k))
                 else (s2, None)))"

fun set_params_loop :: "cuml_class \<Rightarrow> cuml_state \<Rightarrow> (string \<times> pyval) list \<Rightarrow> cuml_state \<times> error option" where
  "set_params_loop cfg self [] = (self, None)"
| "set_params_loop cfg self ((k, v) # rest) =
     and_then (set_param cfg self k v) (\<lambda>s. set_params_loop cfg s rest)"

definition set_params :: "cuml_class \<Rightarrow> cuml_state \<Rightarrow> (string \<times> pyval) list \<Rightarrow> cuml_state \<times> error option" where
  "set_params cfg self kwargs =
     (case check_aliases (param_mapping cfg) kwargs of
        Some e \<Rightarrow> (self, Some e)
      | None \<Rightarrow> set_params_loop cfg self kwargs)"

section \<open>\<^verbatim>\<open>_CumlParams.clear\<close> and \<^verbatim>\<open>_CumlParams._copy_cuml_params\<close>\<close>

definition clear :: "cuml_class \<Rightarrow> cuml_state \<Rightarrow> string \<Rightarrow> cuml_state \<times> error option" where
  "clear cfg self name =
     and_then (store_clear self name)
       (\<lambda>s. case map_of (param_mapping cfg) name of
              None \<Rightarrow> (s, None)
            | Some cuml_param \<Rightarrow>
                (case getOrDefault s name of
                   Inl e \<Rightarrow> (s, Some e)
                 | Inr v \<Rightarrow> (s\<lparr>cuml_params := AList.update cuml_param v (cuml_params s)\<rparr>, None)))"

definition copy_cuml_params :: "cuml_state \<Rightarrow> cuml_state \<Rightarrow> cuml_state" where
  "copy_cuml_params self to =
     to\<lparr>cuml_params :=
          fold (\<lambda>p acc. if has_key acc (fst p) then AList.update (fst p) (snd p) acc else acc)
            (cuml_params self) (cuml_params to)\<rparr>"

section \<open>Notions used to state the properties\<close>

text \<open>
  The value \<^verbatim>\<open>_set_cuml_value(k, v)\<close> stores under \<open>k\<close>, or the exception it raises,
  read off a run of the setter on an object with an empty table.
\<close>

definition native_value :: "cuml_class \<Rightarrow> string \<Rightarrow> pyval \<Rightarrow> error + pyval" where
  "native_value cfg k v =
     (case set_cuml_value cfg
             \<lparr>params = [], typeConverter = (\<lambda>name x. Some x), defaultParamMap = [], paramMap = [],
              cuml_params = []\<rparr> k v of
        (s, Some e) \<Rightarrow> Inl e
      | (s, None) \<Rightarrow> (case map_of (cuml_params s) k of Some w \<Rightarrow> Inr w | None \<Rightarrow> Inr v))"



text \<open>
  The merge of the spec: "later classes' defaults override earlier on name collision".
\<close>

fun spec_merged_defaults :: "(string \<times> pyval) list list \<Rightarrow> string \<Rightarrow> pyval option" where
  "spec_merged_defaults [] x = None"
| "spec_merged_defaults (sig # rest) x =
     (case spec_merged_defaults rest x of Some d \<Rightarrow> Some d | None \<Rightarrow> map_of sig x)"

text \<open>
  The overlay of the spec: starting from the native defaults, every pair of the name
  mapping whose Spark param has a registered default puts the param's current value,
  as the single-value setter stores it, under the native name.
\<close>

definition spec_applied_value :: "cuml_class \<Rightarrow> cuml_state \<Rightarrow> string \<Rightarrow> string \<Rightarrow> pyval option" where
  "spec_applied_value cfg self spark_param cuml_param =
     (case getOrDefault self spark_param of
        Inl e \<Rightarrow> None
      | Inr v \<Rightarrow> (case native_value cfg cuml_param v of Inl e \<Rightarrow> None | Inr w \<Rightarrow> Some w))"

fun spec_overlay :: "cuml_class \<Rightarrow> cuml_state \<Rightarrow> (string \<times> string) list \<Rightarrow> (string \<rightharpoonup> pyval) \<Rightarrow> (string \<rightharpoonup> pyval)" where
  "spec_overlay cfg self [] tbl = tbl"
| "spec_overlay cfg self ((spark_param, cuml_param) # rest) tbl =
     spec_overlay cfg self rest
       (if has_key (defaultParamMap self) spark_param
        then (case spec_applied_value cfg self spark_param cuml_param of
                Some w \<Rightarrow> tbl(cuml_param \<mapsto> w)
              | None \<Rightarrow> tbl)
        else tbl)"

section \<open>Example classes and objects\<close>

text \<open>
  The type converters of the examples: \<^verbatim>\<open>TypeConverters.toInt\<close>, which keeps an \<^verbatim>\<open>int\<close> and
  raises for the other values of \<open>pyval\<close>, for \<^verbatim>\<open>num_workers\<close> and \<open>k\<close>, and
  \<^verbatim>\<open>TypeConverters.toString\<close>, which keeps a \<^verbatim>\<open>str\<close> and raises otherwise, for the rest.
\<close>

fun toInt :: "pyval \<Rightarrow> pyval option" where
  "toInt (PInt i) = Some (PInt i)"
| "toInt v = None"

fun toString :: "pyval \<Rightarrow> pyval option" where
  "toString (PStr s) = Some (PStr s)"
| "toString v = None"

definition converters :: "string \<Rightarrow> pyval \<Rightarrow> pyval option" where
  "converters name v = (if name = ''num_workers'' \<or> name = ''k'' then toInt v else toString v)"

text \<open>
  The value mapping of \<open>linear_regression\<close> and the name mapping of \<open>pca\<close> are the
  examples of the docstrings of \<^verbatim>\<open>_param_value_mapping\<close> and \<^verbatim>\<open>_param_mapping\<close>.
  \<open>linear_regression_obj\<close> is a linear regression object as
  \<^verbatim>\<open>initialize_cuml_params\<close> leaves it.
\<close>

definition linear_regression :: cuml_class where
  "linear_regression =
     \<lparr>cuml_cls = Some [PyClass [(''loss'', PStr ''squared_loss''), (''solver'', PStr ''eig''),
                               (''handle'', PNone)]],
      param_excludes = [''handle''],
      param_mapping = [(''loss'', ''loss''), (''solver'', ''solver'')],
      param_value_mapping =
        [(''loss'', [(''squaredError'', Some ''squared_loss''), (''huber'', None)]),
         (''solver'', [(''auto'', Some ''eig''), (''normal'', Some ''eig''), (''l-bfgs'', None)])]\<rparr>"

definition linear_regression_obj :: cuml_state where
  "linear_regression_obj =
     \<lparr>params = [''loss'', ''solver'', ''num_workers''],
      typeConverter = converters,
      defaultParamMap = [(''loss'', PStr ''squaredError''), (''solver'', PStr ''auto'')],
      paramMap = [],
      cuml_params = [(''loss'', PStr ''squared_loss''), (''solver'', PStr ''eig'')]\<rparr>"

definition pca :: cuml_class where
  "pca =
     \<lparr>cuml_cls = Some [PyClass [(''n_components'', PNone), (''whiten'', PBool False)]],
      param_excludes = [],
      param_mapping = [(''k'', ''n_components'')],
      param_value_mapping = []\<rparr>"

definition pca_obj :: cuml_state where
  "pca_obj =
     \<lparr>params = [''k'', ''num_workers''],
      typeConverter = converters,
      defaultParamMap = [(''k'', PInt 3)],
      paramMap = [],
      cuml_params = []\<rparr>"

text \<open>A PCA object whose param \<open>k\<close> was set to 5 and has no registered default.\<close>

definition pca_explicit_obj :: cuml_state where
  "pca_explicit_obj =
     \<lparr>params = [''k'', ''num_workers''],
      typeConverter = converters,
      defaultParamMap = [],
      paramMap = [(''k'', PInt 5)],
      cuml_params = []\<rparr>"

text \<open>An object of class \<open>pca\<close> that does not declare the Spark param \<open>k\<close>.\<close>

definition pca_undeclared_obj :: cuml_state where
  "pca_undeclared_obj =
     \<lparr>params = [''num_workers''],
      typeConverter = converters,
      defaultParamMap = [],
      paramMap = [],
      cuml_params = []\<rparr>"

text \<open>A class whose value mapping sends \<^verbatim>\<open>"a"\<close> to the empty string.\<close>

definition blank_target_class :: cuml_class where
  "blank_target_class =
     \<lparr>cuml_cls = Some [],
      param_excludes = [],
      param_mapping = [],
      param_value_mapping = [(''p'', [(''a'', Some [])])]\<rparr>"

text \<open>Two native classes that both have a constructor parameter \<open>x\<close>.\<close>

definition two_classes :: cuml_class where
  "two_classes =
     \<lparr>cuml_cls = Some [PyClass [(''x'', PInt 1)], PyClass [(''x'', PInt 2)]],
      param_excludes = [],
      param_mapping = [],
      param_value_mapping = []\<rparr>"

text \<open>An object with the given \<^verbatim>\<open>cuml_params\<close> and no Spark values.\<close>

definition table_obj :: "(string \<times> pyval) list \<Rightarrow> cuml_state" where
  "table_obj tbl =
     \<lparr>params = [''num_workers''], typeConverter = converters, defaultParamMap = [], paramMap = [],
      cuml_params = tbl\<rparr>"

section \<open>Basic facts\<close>

lemmas ex_defs = linear_regression_def linear_regression_obj_def pca_def pca_obj_def
  pca_explicit_obj_def pca_undeclared_obj_def blank_target_class_def two_classes_def table_obj_def

lemmas run_defs = set_params_def set_param_def set_cuml_value_def and_then_def store_set_def
  converters_def
  hasParam_def has_key_def hasDefault_def getOrDefault_def initialize_cuml_params_def
  get_cuml_params_default_def dict_update_def clear_def store_clear_def copy_cuml_params_def

lemma and_then_None [simp]: "and_then (s, None) f = f s"
  by (simp add: and_then_def)

lemma and_then_Some [simp]: "and_then (s, Some e) f = (s, Some e)"
  by (simp add: and_then_def)

lemma has_key_map_of: "has_key d k \<longleftrightarrow> map_of d k \<noteq> None"
  by (simp add: has_key_def map_of_eq_None_iff)

lemma has_key_update [simp]: "has_key (AList.update a v d) k \<longleftrightarrow> k = a \<or> has_key d k"
  by (auto simp: has_key_def AList.dom_update)

lemma hasParam_paramMap [simp]: "hasParam (s\<lparr>paramMap := m\<rparr>) k = hasParam s k"
  by (simp add: hasParam_def)

lemma hasParam_cuml_params [simp]: "hasParam (s\<lparr>cuml_params := m\<rparr>) k = hasParam s k"
  by (simp add: hasParam_def)

lemma getOrDefault_cuml_params [simp]:
  "getOrDefault (s\<lparr>cuml_params := t\<rparr>) k = getOrDefault s k"
  by (simp add: getOrDefault_def split: option.splits)

lemma hasDefault_cuml_params [simp]:
  "hasDefault (s\<lparr>cuml_params := t\<rparr>) k = hasDefault s k"
  by (simp add: hasDefault_def)

lemma set_non_none: "set (non_none xs) = {x. Some x \<in> set xs}"
  by (induction xs rule: non_none.induct) auto

lemma dict_get_truthy_supported:
  assumes "truthy (dict_get vm v)"
  shows "the (dict_get vm v) \<in> set (non_none (map snd vm))"
proof (cases v)
  case (PStr s)
  with assms obtain t where t: "map_of vm s = Some (Some t)"
    by (cases "map_of vm s") (auto elim: truthy.elims)
  then have "(s, Some t) \<in> set vm" by (rule map_of_SomeD)
  then have "Some t \<in> set (map snd vm)" by force
  with t PStr show ?thesis by (simp add: set_non_none)
qed (use assms in auto)

section \<open>Properties of \<^verbatim>\<open>_set_cuml_value\<close>\<close>

lemma set_cuml_value_native_value:
  "set_cuml_value cfg self k v =
     (case native_value cfg k v of
        Inl e \<Rightarrow> (self, Some e)
      | Inr w \<Rightarrow> (self\<lparr>cuml_params := AList.update k w (cuml_params self)\<rparr>, None))"
  by (simp add: native_value_def set_cuml_value_def Let_def split: option.splits)


lemma set_cuml_value_supported:
  "map_of (param_value_mapping cfg) k = Some vm \<Longrightarrow> in_strs v (set (non_none (map snd vm))) \<Longrightarrow>
   set_cuml_value cfg self k v = (self\<lparr>cuml_params := AList.update k v (cuml_params self)\<rparr>, None)"
  by (cases v) (simp_all add: set_cuml_value_def)

lemma set_cuml_value_translated:
  assumes "map_of (param_value_mapping cfg) k = Some vm"
    and "s \<notin> set (non_none (map snd vm))"
    and "map_of vm s = Some (Some t)" and "t \<noteq> []"
  shows "set_cuml_value cfg self k (PStr s)
           = (self\<lparr>cuml_params := AList.update k (PStr t) (cuml_params self)\<rparr>, None)"
  using assms by (simp add: set_cuml_value_def)

lemma set_cuml_value_rejected:
  assumes "map_of (param_value_mapping cfg) k = Some vm"
    and "hashable v" and "\<not> in_strs v (set (non_none (map snd vm)))"
    and "dict_get vm v = None"
  shows "set_cuml_value cfg self k v
           = (self, Some (UnsupportedValue v k (set (non_none (map snd vm)))))"
  using assms by (simp add: set_cuml_value_def)

lemma set_cuml_value_cases:
  assumes "set_cuml_value cfg self k v = (s1, None)"
  obtains w where "s1 = self\<lparr>cuml_params := AList.update k w (cuml_params self)\<rparr>"
    and "\<And>vm. map_of (param_value_mapping cfg) k = Some vm \<Longrightarrow> in_strs w (set (non_none (map snd vm)))"
    and "map_of (param_value_mapping cfg) k = None \<Longrightarrow> w = v"
proof (cases "map_of (param_value_mapping cfg) k")
  case None
  with assms that show ?thesis by (auto simp: set_cuml_value_def)
next
  case (Some vm)
  show ?thesis
  proof (cases "in_strs v (set (non_none (map snd vm)))")
    case True
    with Some assms that show ?thesis
      by (auto simp: set_cuml_value_def Let_def split: if_splits)
  next
    case False
    with Some assms have tr: "truthy (dict_get vm v)"
      and s1: "s1 = self\<lparr>cuml_params := AList.update k (PStr (the (dict_get vm v))) (cuml_params self)\<rparr>"
      by (auto simp: set_cuml_value_def Let_def split: if_splits)
    from dict_get_truthy_supported[OF tr] Some s1 that show ?thesis by auto
  qed
qed

lemma set_cuml_value_error_state:
  "set_cuml_value cfg self k v = (s1, Some e) \<Longrightarrow> s1 = self"
  by (auto simp: set_cuml_value_def Let_def split: option.splits if_splits)

lemma set_cuml_value_unsupported:
  "set_cuml_value cfg s c' v = (s', Some (UnsupportedValue x c S)) \<Longrightarrow> x = v \<and> c = c' \<and> s' = s"
  by (auto simp: set_cuml_value_def Let_def split: option.splits if_splits)

text \<open>
  Claim C1. A value that is a source key of the mapping table with a non-null target is
  to be stored as that target. The setter tests the target with \<^verbatim>\<open>if mapped_v:\<close>, so
  a target that is the empty string is rejected like \<^verbatim>\<open>None\<close>: for the value mapping
  \<^verbatim>\<open>{"p": {"a": ""}}\<close> the call \<^verbatim>\<open>_set_cuml_value("p", "a")\<close> raises the unsupported-value
  error and leaves the object as it was, although \<^verbatim>\<open>"a"\<close> has a non-null target and the
  supported set, built with \<^verbatim>\<open>is not None\<close>, contains that target.
\<close>

theorem set_cuml_value_blank_target_rejected:
  "map_of (param_value_mapping blank_target_class) ''p'' = Some [(''a'', Some [])]
   \<and> set_cuml_value blank_target_class self ''p'' (PStr ''a'')
       = (self, Some (UnsupportedValue (PStr ''a'') ''p'' {[]}))"
  by (simp add: blank_target_class_def set_cuml_value_def)

text \<open>
  Claim C10. Stored values are closed under re-application: when \<open>k\<close> has a value
  mapping and \<^verbatim>\<open>_set_cuml_value(k, v)\<close> succeeds, the value \<open>w\<close> it stored lies in the
  supported set of \<open>k\<close>, and \<^verbatim>\<open>_set_cuml_value(k, w)\<close> succeeds and leaves the object,
  with \<open>w\<close> under \<open>k\<close>, unchanged.
\<close>

theorem set_cuml_value_closed:
  assumes vm: "map_of (param_value_mapping cfg) k = Some vm"
    and ok: "set_cuml_value cfg self k v = (s1, None)"
  shows "\<exists>w. map_of (cuml_params s1) k = Some w
           \<and> in_strs w (set (non_none (map snd vm)))
           \<and> set_cuml_value cfg s1 k w = (s1, None)"
proof -
  from ok obtain w where s1: "s1 = self\<lparr>cuml_params := AList.update k w (cuml_params self)\<rparr>"
    and sup: "in_strs w (set (non_none (map snd vm)))"
    using vm by (auto elim!: set_cuml_value_cases)
  have look: "map_of (cuml_params s1) k = Some w"
    by (simp add: s1 AList.update_conv')
  then have "AList.update k w (cuml_params s1) = cuml_params s1"
    by (rule AList.update_triv)
  with set_cuml_value_supported[OF vm sup, of s1] have "set_cuml_value cfg s1 k w = (s1, None)"
    by simp
  with look sup show ?thesis by blast
qed

text \<open>
  Claim C10 at the linear regression object: \<^verbatim>\<open>"squaredError"\<close> is stored as
  \<^verbatim>\<open>"squared_loss"\<close>, which is supported and is stored again unchanged.
\<close>

theorem set_cuml_value_closed_witness:
  "map_of (param_value_mapping linear_regression) ''loss''
     = Some [(''squaredError'', Some ''squared_loss''), (''huber'', None)]
   \<and> set_cuml_value linear_regression linear_regression_obj ''loss'' (PStr ''squaredError'')
     = (linear_regression_obj, None)
   \<and> (\<exists>w. map_of (cuml_params linear_regression_obj) ''loss'' = Some w
          \<and> in_strs w (set (non_none (map snd [(''squaredError'', Some ''squared_loss''), (''huber'', None)])))
          \<and> set_cuml_value linear_regression linear_regression_obj ''loss'' w = (linear_regression_obj, None))"
proof -
  have vm: "map_of (param_value_mapping linear_regression) ''loss''
     = Some [(''squaredError'', Some ''squared_loss''), (''huber'', None)]"
    by (simp add: linear_regression_def)
  have ok: "set_cuml_value linear_regression linear_regression_obj ''loss'' (PStr ''squaredError'')
     = (linear_regression_obj, None)"
    by (simp add: ex_defs run_defs)
  from set_cuml_value_closed[OF vm ok] vm ok show ?thesis by blast
qed

section \<open>Properties of \<^verbatim>\<open>set_params\<close>\<close>

subsection \<open>The alias check\<close>

lemma check_aliases_Some:
  "(a, b) \<in> set pm \<Longrightarrow> a \<noteq> b \<Longrightarrow> has_key kwargs a \<Longrightarrow> has_key kwargs b \<Longrightarrow>
   \<exists>a' b'. check_aliases pm kwargs = Some (AliasError b' a') \<and> (a', b') \<in> set pm
            \<and> a' \<noteq> b' \<and> has_key kwargs a' \<and> has_key kwargs b'"
  by (induction pm kwargs rule: check_aliases.induct) auto

lemma check_aliases_None:
  "check_aliases pm kwargs = None \<longleftrightarrow>
   (\<forall>(a, b) \<in> set pm. a = b \<or> \<not> has_key kwargs a \<or> \<not> has_key kwargs b)"
  by (induction pm kwargs rule: check_aliases.induct) auto

lemma check_aliases_is_alias:
  "check_aliases pm kwargs = Some e \<Longrightarrow> \<exists>a b. e = AliasError b a"
  by (induction pm kwargs rule: check_aliases.induct) (auto split: if_splits)


text \<open>
  Claim C2. If both names of a pair of the name mapping, the two names distinct, are
  among the keys passed to \<^verbatim>\<open>set_params\<close>, the call raises the alias error (for the first
  such pair of the mapping) and the object is returned as it was: neither the Spark
  params nor \<^verbatim>\<open>cuml_params\<close> are touched.
\<close>

theorem set_params_alias_rejected:
  assumes "(spark_param, cuml_param) \<in> set (param_mapping cfg)"
    and "spark_param \<noteq> cuml_param"
    and "has_key kwargs spark_param" and "has_key kwargs cuml_param"
  shows "\<exists>a b. set_params cfg self kwargs = (self, Some (AliasError b a))
           \<and> (a, b) \<in> set (param_mapping cfg) \<and> a \<noteq> b \<and> has_key kwargs a \<and> has_key kwargs b"
  using check_aliases_Some[OF assms] by (auto simp: set_params_def)

text \<open>Claim C2 at the PCA object: \<^verbatim>\<open>set_params(k=1, n_components=2)\<close>.\<close>

theorem set_params_alias_rejected_witness:
  "(''k'', ''n_components'') \<in> set (param_mapping pca) \<and> ''k'' \<noteq> ''n_components''
   \<and> has_key [(''k'', PInt 1), (''n_components'', PInt 2)] ''k''
   \<and> has_key [(''k'', PInt 1), (''n_components'', PInt 2)] ''n_components''
   \<and> set_params pca pca_obj [(''k'', PInt 1), (''n_components'', PInt 2)]
       = (pca_obj, Some (AliasError ''n_components'' ''k''))"
proof -
  have m: "(''k'', ''n_components'') \<in> set (param_mapping pca)" by (simp add: pca_def)
  have ne: "''k'' \<noteq> ''n_components''" by simp
  have k1: "has_key [(''k'', PInt 1), (''n_components'', PInt 2)] ''k''" by (simp add: has_key_def)
  have k2: "has_key [(''k'', PInt 1), (''n_components'', PInt 2)] ''n_components''"
    by (simp add: has_key_def)
  from set_params_alias_rejected[OF m ne k1 k2, of pca_obj] obtain a b where
    r: "set_params pca pca_obj [(''k'', PInt 1), (''n_components'', PInt 2)] = (pca_obj, Some (AliasError b a))"
    and ab: "(a, b) \<in> set (param_mapping pca)"
    by blast
  from ab have "a = ''k''" "b = ''n_components''" by (simp_all add: pca_def)
  with r m ne k1 k2 show ?thesis by simp
qed

subsection \<open>One item of the batch\<close>

lemma store_set_frame:
  "store_set s k v = (s', e) \<Longrightarrow>
     params s' = params s \<and> typeConverter s' = typeConverter s
   \<and> defaultParamMap s' = defaultParamMap s \<and> cuml_params s' = cuml_params s"
  by (auto simp: store_set_def split: if_splits option.splits)

lemma store_set_error_state:
  "store_set s k v = (s', Some e) \<Longrightarrow> s' = s \<and> (e = AttributeError k \<or> e = InvalidParamValue k v)"
  by (auto simp: store_set_def split: if_splits option.splits)



text \<open>The inner loop touches the Spark values only, and its outcome depends on nothing
  but the declared names and their converters.\<close>

lemma set_spark_aliases_frame:
  "set_spark_aliases s k v pm = (s', e) \<Longrightarrow>
     cuml_params s' = cuml_params s \<and> params s' = params s
   \<and> typeConverter s' = typeConverter s \<and> defaultParamMap s' = defaultParamMap s"
proof (induction s k v pm rule: set_spark_aliases.induct)
  case (1 self k v)
  then show ?case by simp
next
  case (2 self k v spark_param cuml_param rest)
  show ?case
  proof (cases "k = cuml_param")
    case False
    with 2 show ?thesis by simp
  next
    case True
    obtain s1 e1 where st: "store_set self spark_param v = (s1, e1)"
      by (cases "store_set self spark_param v")
    note fr = store_set_frame[OF st]
    show ?thesis
    proof (cases e1)
      case None
      with "2.prems" True st have "set_spark_aliases s1 k v rest = (s', e)" by simp
      from "2.IH"(1)[OF True this] fr show ?thesis by simp
    next
      case (Some err)
      with "2.prems" True st have "s' = s1" by simp
      with fr show ?thesis by simp
    qed
  qed
qed


lemma set_spark_aliases_raises:
  "set_spark_aliases s k v pm = (s', Some e) \<Longrightarrow>
   (\<exists>a. e = AttributeError a) \<or> (\<exists>a. e = InvalidParamValue a v)"
proof (induction s k v pm rule: set_spark_aliases.induct)
  case (1 self k v)
  then show ?case by simp
next
  case (2 self k v spark_param cuml_param rest)
  show ?case
  proof (cases "k = cuml_param")
    case False
    with 2 show ?thesis by simp
  next
    case True
    obtain s1 e1 where st: "store_set self spark_param v = (s1, e1)"
      by (cases "store_set self spark_param v")
    show ?thesis
    proof (cases e1)
      case None
      with "2.prems" True st have "set_spark_aliases s1 k v rest = (s', Some e)" by simp
      from "2.IH"(1)[OF True this] show ?thesis .
    next
      case (Some err)
      with "2.prems" True st have "e = err" by simp
      with store_set_error_state[of self spark_param v s1 err] st Some show ?thesis by auto
    qed
  qed
qed

lemma set_param_spark:
  assumes "hasParam self k"
  shows "set_param cfg self k v =
     and_then (store_set self k v)
       (\<lambda>s. case map_of (param_mapping cfg) k of
              None \<Rightarrow> (s, None)
            | Some c \<Rightarrow> set_cuml_value cfg s c v)"
proof -
  obtain s1 e1 where st: "store_set self k v = (s1, e1)" by (cases "store_set self k v")
  from store_set_frame[OF st] assms have hp1: "hasParam s1 k" by (simp add: hasParam_def)
  show ?thesis
  proof (cases e1)
    case (Some err)
    with assms st show ?thesis by (simp add: set_param_def)
  next
    case None
    show ?thesis
    proof (cases "map_of (param_mapping cfg) k")
      case nm: None
      with assms st None hp1 show ?thesis by (simp add: set_param_def)
    next
      case (Some c)
      with assms st None hp1 show ?thesis
        by (cases "native_value cfg c v") (simp_all add: set_param_def set_cuml_value_native_value)
    qed
  qed
qed

lemma set_param_cuml:
  assumes "\<not> hasParam self k" and "has_key (cuml_params self) k"
  shows "set_param cfg self k v =
     set_spark_aliases (self\<lparr>cuml_params := AList.update k v (cuml_params self)\<rparr>) k v (param_mapping cfg)"
proof -
  obtain s2 e where r: "set_spark_aliases (self\<lparr>cuml_params := AList.update k v (cuml_params self)\<rparr>) k v
      (param_mapping cfg) = (s2, e)"
    by (cases "set_spark_aliases (self\<lparr>cuml_params := AList.update k v (cuml_params self)\<rparr>) k v
      (param_mapping cfg)")
  from set_spark_aliases_frame[OF r] have "has_key (cuml_params s2) k" and "\<not> hasParam s2 k"
    using assms(1) by (simp_all add: hasParam_def)
  with assms r show ?thesis
    by (cases e) (simp_all add: set_param_def)
qed

lemma set_param_unknown:
  assumes "\<not> hasParam self k" and "\<not> has_key (cuml_params self) k"
  shows "set_param cfg self k v =
     (if has_key (param_mapping cfg) k then (self, None) else (self, Some (UnsupportedParam k)))"
  using assms by (simp add: set_param_def)

text \<open>What one item can change: the declared names and their converters never, an
  entry of the table only under the item's own key or under the native name its key
  is mapped to.\<close>

lemma set_param_frame:
  assumes "set_param cfg self k v = (s', e)"
  shows "params s' = params self"
    and "map_of (cuml_params s') n \<noteq> map_of (cuml_params self) n \<Longrightarrow>
           n = k \<or> map_of (param_mapping cfg) k = Some n"
    and "typeConverter s' = typeConverter self"
proof -
  have "params s' = params self \<and> typeConverter s' = typeConverter self \<and>
        (map_of (cuml_params s') n \<noteq> map_of (cuml_params self) n \<longrightarrow>
           n = k \<or> map_of (param_mapping cfg) k = Some n)"
  proof (cases "hasParam self k")
    case True
    obtain s1 e1 where st: "store_set self k v = (s1, e1)" by (cases "store_set self k v")
    note fr = store_set_frame[OF st]
    show ?thesis
    proof (cases e1)
      case (Some err)
      with assms True st have "s' = s1" by (simp add: set_param_spark)
      with fr show ?thesis by simp
    next
      case None
      show ?thesis
      proof (cases "map_of (param_mapping cfg) k")
        case nm: None
        with assms True st None have "s' = s1" by (simp add: set_param_spark)
        with fr show ?thesis by simp
      next
        case (Some c)
        with assms True st None fr show ?thesis
          by (cases "native_value cfg c v")
             (auto simp: set_param_spark set_cuml_value_native_value AList.update_conv')
      qed
    qed
  next
    case False
    show ?thesis
    proof (cases "has_key (cuml_params self) k")
      case True
      from assms have "set_spark_aliases (self\<lparr>cuml_params := AList.update k v (cuml_params self)\<rparr>) k v
          (param_mapping cfg) = (s', e)"
        by (simp add: set_param_cuml[OF False True])
      from set_spark_aliases_frame[OF this] show ?thesis
        by (auto simp: AList.update_conv')
    next
      case nk: False
      with False assms show ?thesis
        by (auto simp: set_param_unknown split: if_splits)
    qed
  qed
  then show "params s' = params self"
    and "map_of (cuml_params s') n \<noteq> map_of (cuml_params self) n \<Longrightarrow>
           n = k \<or> map_of (param_mapping cfg) k = Some n"
    and "typeConverter s' = typeConverter self"
    by blast+
qed

lemma set_param_unsupported_value:
  assumes "set_param cfg s1 k v = (s', Some (UnsupportedValue x c S))"
  shows "x = v \<and> map_of (param_mapping cfg) k = Some c \<and> store_set s1 k v = (s', None)"
proof (cases "hasParam s1 k")
  case True
  obtain sa ea where st: "store_set s1 k v = (sa, ea)" by (cases "store_set s1 k v")
  show ?thesis
  proof (cases ea)
    case (Some err)
    with assms True st have "err = UnsupportedValue x c S" by (simp add: set_param_spark)
    with store_set_error_state[of s1 k v sa err] st Some show ?thesis by auto
  next
    case None
    with assms True st show ?thesis
      by (cases "map_of (param_mapping cfg) k")
         (auto simp: set_param_spark dest: set_cuml_value_unsupported)
  qed
next
  case False
  show ?thesis
  proof (cases "has_key (cuml_params s1) k")
    case True
    with False assms show ?thesis
      by (auto simp: set_param_cuml dest: set_spark_aliases_raises)
  next
    case nk: False
    with False assms show ?thesis by (auto simp: set_param_unknown split: if_splits)
  qed
qed



subsection \<open>The loop over the batch\<close>

lemma set_params_loop_append:
  "set_params_loop cfg self (xs @ ys) =
     and_then (set_params_loop cfg self xs) (\<lambda>s. set_params_loop cfg s ys)"
proof (induction xs arbitrary: self)
  case Nil
  then show ?case by simp
next
  case (Cons x xs)
  obtain k v where x: "x = (k, v)" by (cases x)
  obtain s e where r: "set_param cfg self k v = (s, e)" by (cases "set_param cfg self k v")
  show ?case
    using Cons.IH[of s] by (cases e) (simp_all add: x r)
qed

lemma set_params_loop_frame:
  assumes "set_params_loop cfg self items = (s', e)"
  shows "params s' = params self"
    and "map_of (cuml_params s') n \<noteq> map_of (cuml_params self) n \<Longrightarrow>
           \<exists>k \<in> fst ` set items. n = k \<or> map_of (param_mapping cfg) k = Some n"
proof -
  have "params s' = params self \<and>
        (map_of (cuml_params s') n \<noteq> map_of (cuml_params self) n \<longrightarrow>
           (\<exists>k \<in> fst ` set items. n = k \<or> map_of (param_mapping cfg) k = Some n))"
    using assms
  proof (induction items arbitrary: self)
    case Nil
    then show ?case by simp
  next
    case (Cons x xs)
    obtain k v where x: "x = (k, v)" by (cases x)
    obtain s1 e1 where r: "set_param cfg self k v = (s1, e1)" by (cases "set_param cfg self k v")
    note fr = set_param_frame[OF r]
    show ?case
    proof (cases e1)
      case None
      with Cons.prems x r have "set_params_loop cfg s1 xs = (s', e)" by simp
      from Cons.IH[OF this] fr(1) fr(2)[of n] x show ?thesis by auto
    next
      case (Some err)
      with Cons.prems x r have "s' = s1" by simp
      with fr(1) fr(2)[of n] x show ?thesis by auto
    qed
  qed
  then show "params s' = params self"
    and "map_of (cuml_params s') n \<noteq> map_of (cuml_params self) n \<Longrightarrow>
           \<exists>k \<in> fst ` set items. n = k \<or> map_of (param_mapping cfg) k = Some n"
    by blast+
qed

lemma set_params_loop_error:
  "set_params_loop cfg self items = (s', Some err) \<Longrightarrow>
   \<exists>pre k v post s1. items = pre @ (k, v) # post
      \<and> set_params_loop cfg self pre = (s1, None) \<and> set_param cfg s1 k v = (s', Some err)"
proof (induction items arbitrary: self)
  case Nil
  then show ?case by simp
next
  case (Cons x xs)
  obtain k v where x: "x = (k, v)" by (cases x)
  obtain s1 e1 where r: "set_param cfg self k v = (s1, e1)" by (cases "set_param cfg self k v")
  show ?case
  proof (cases e1)
    case None
    with Cons.prems x r have "set_params_loop cfg s1 xs = (s', Some err)" by simp
    from Cons.IH[OF this] obtain pre k' v' post s2 where
      d: "xs = pre @ (k', v') # post" "set_params_loop cfg s1 pre = (s2, None)"
         "set_param cfg s2 k' v' = (s', Some err)"
      by blast
    have "x # xs = (x # pre) @ (k', v') # post" using d(1) by simp
    moreover have "set_params_loop cfg self (x # pre) = (s2, None)"
      using d(2) x r None by simp
    ultimately show ?thesis using d(3) by blast
  next
    case (Some e)
    with Cons.prems x r have "set_param cfg self k v = (s', Some err)" by simp
    moreover have "x # xs = [] @ (k, v) # xs" using x by simp
    moreover have "set_params_loop cfg self [] = (self, None)" by simp
    ultimately show ?thesis by blast
  qed
qed


lemma earlier_items_keep_entry:
  assumes loop: "set_params_loop cfg self pre = (s1, e)"
    and kw: "kwargs = pre @ (k, v) # post"
    and dist: "distinct (map fst kwargs)"
    and na: "check_aliases (param_mapping cfg) kwargs = None"
  shows "map_of (cuml_params s1) k = map_of (cuml_params self) k"
proof (rule ccontr)
  assume "map_of (cuml_params s1) k \<noteq> map_of (cuml_params self) k"
  from set_params_loop_frame(2)[OF loop this] obtain k' where
    k': "k' \<in> fst ` set pre" and c: "k = k' \<or> map_of (param_mapping cfg) k' = Some k"
    by blast
  from k' kw dist have ne: "k' \<noteq> k" by auto
  with c have "(k', k) \<in> set (param_mapping cfg)" by (auto dest: map_of_SomeD)
  moreover have "has_key kwargs k'" "has_key kwargs k"
    using k' kw by (auto simp: has_key_def)
  ultimately show False using na ne by (auto simp: check_aliases_None)
qed

lemma set_params_loss_squaredError: "set_params linear_regression linear_regression_obj [(''loss'', PStr ''squaredError'')]
   = (linear_regression_obj\<lparr>paramMap := [(''loss'', PStr ''squaredError'')]\<rparr>, None)"
  by (simp add: ex_defs run_defs)

lemma set_params_loss_huber: "set_params linear_regression linear_regression_obj [(''loss'', PStr ''huber'')]
   = (linear_regression_obj\<lparr>paramMap := [(''loss'', PStr ''huber'')]\<rparr>,
      Some (UnsupportedValue (PStr ''huber'') ''loss'' {''squared_loss''}))"
  by (simp add: ex_defs run_defs)

text \<open>
  Claim C3, as stated: a key that is neither a known Spark param nor a key of
  \<^verbatim>\<open>cuml_params\<close> is rejected. The test of \<^verbatim>\<open>set_params\<close> has a third conjunct,
  \<^verbatim>\<open>k not in param_map\<close>: a key of the name mapping that the object does not declare as a
  Spark param and that is not in the table is skipped without an error.
\<close>

theorem set_params_undeclared_mapping_key_ignored:
  "\<not> hasParam pca_undeclared_obj ''k'' \<and> \<not> has_key (cuml_params pca_undeclared_obj) ''k''
   \<and> set_params pca pca_undeclared_obj [(''k'', PInt 1)] = (pca_undeclared_obj, None)"
  by (simp add: ex_defs run_defs)

text \<open>
  Claim C3, amended. A key \<open>k\<close> of the batch that is neither a known Spark param, nor a
  key of the name mapping, nor a key of \<^verbatim>\<open>cuml_params\<close> before the call makes the call
  raise. When the alias check passes and the items before \<open>k\<close> are processed without an
  exception, the exception is the unsupported-param error for \<open>k\<close>, raised on the object
  as the earlier items left it.
\<close>

theorem set_params_unknown_key:
  assumes np: "\<not> hasParam self k"
    and nm: "\<not> has_key (param_mapping cfg) k"
    and nt: "\<not> has_key (cuml_params self) k"
    and kw: "kwargs = pre @ (k, v) # post"
    and dist: "distinct (map fst kwargs)"
  shows "snd (set_params cfg self kwargs) \<noteq> None
       \<and> (check_aliases (param_mapping cfg) kwargs = None \<longrightarrow>
            (\<forall>s1. set_params_loop cfg self pre = (s1, None) \<longrightarrow>
               set_params cfg self kwargs = (s1, Some (UnsupportedParam k))))"
proof -
  have at_k: "set_params cfg self kwargs = (s1, Some (UnsupportedParam k))"
    if na: "check_aliases (param_mapping cfg) kwargs = None"
      and pre: "set_params_loop cfg self pre = (s1, None)" for s1
  proof -
    from set_params_loop_frame(1)[OF pre] np have np1: "\<not> hasParam s1 k"
      by (simp add: hasParam_def)
    from earlier_items_keep_entry[OF pre kw dist na] nt have nt1: "\<not> has_key (cuml_params s1) k"
      by (simp add: has_key_map_of)
    from set_param_unknown[OF np1 nt1] nm
    have "set_param cfg s1 k v = (s1, Some (UnsupportedParam k))" by simp
    then show ?thesis
      using na pre by (simp add: set_params_def kw set_params_loop_append)
  qed
  have "snd (set_params cfg self kwargs) \<noteq> None"
  proof (cases "check_aliases (param_mapping cfg) kwargs")
    case (Some e)
    then show ?thesis by (simp add: set_params_def)
  next
    case None
    obtain s1 e1 where pre: "set_params_loop cfg self pre = (s1, e1)"
      by (cases "set_params_loop cfg self pre")
    show ?thesis
    proof (cases e1)
      case n: None
      with at_k[OF None] pre show ?thesis by simp
    next
      case (Some e)
      with None pre show ?thesis
        by (simp add: set_params_def kw set_params_loop_append)
    qed
  qed
  with at_k show ?thesis by blast
qed

text \<open>Claim C3 at the PCA object: \<^verbatim>\<open>set_params(not_a_real_param=1)\<close>.\<close>

theorem set_params_unknown_key_witness:
  "\<not> hasParam pca_obj ''not_a_real_param''
   \<and> \<not> has_key (param_mapping pca) ''not_a_real_param''
   \<and> \<not> has_key (cuml_params pca_obj) ''not_a_real_param''
   \<and> distinct (map fst [(''not_a_real_param'', PInt 1)])
   \<and> set_params pca pca_obj [(''not_a_real_param'', PInt 1)]
       = (pca_obj, Some (UnsupportedParam ''not_a_real_param''))"
proof -
  have np: "\<not> hasParam pca_obj ''not_a_real_param''" by (simp add: hasParam_def pca_obj_def)
  have nm: "\<not> has_key (param_mapping pca) ''not_a_real_param''" by (simp add: has_key_def pca_def)
  have nt: "\<not> has_key (cuml_params pca_obj) ''not_a_real_param''"
    by (simp add: has_key_def pca_obj_def)
  have kw: "[(''not_a_real_param'', PInt 1)] = [] @ (''not_a_real_param'', PInt 1) # []" by simp
  have dist: "distinct (map fst [(''not_a_real_param'', PInt 1)])" by simp
  have na: "check_aliases (param_mapping pca) [(''not_a_real_param'', PInt 1)] = None"
    by (simp add: pca_def has_key_def)
  have pre: "set_params_loop pca pca_obj [] = (pca_obj, None)" by simp
  from set_params_unknown_key[OF np nm nt kw dist] na pre np nm nt dist show ?thesis by blast
qed

text \<open>
  Claim C9. When \<^verbatim>\<open>set_params\<close> raises the unsupported-value error, it does so at one
  item \<open>(k, x)\<close> of the batch whose key is mapped to the native name \<open>c\<close> of the error.
  The table is the one the earlier items left: their effects stay, the assignment for
  \<open>k\<close> is not made and no later item is applied; only the Spark param \<open>k\<close> has
  already been set, by \<^verbatim>\<open>_set\<close>, from \<open>x\<close>. The table entry under \<open>k\<close> is the one from before the
  call, and so is the entry under \<open>c\<close> unless an earlier key of the batch is mapped to
  \<open>c\<close> as well.
\<close>

theorem set_params_unsupported_value_partial:
  assumes raised: "set_params cfg self kwargs = (s', Some (UnsupportedValue x c S))"
    and dist: "distinct (map fst kwargs)"
  shows "\<exists>pre k post s1. kwargs = pre @ (k, x) # post
           \<and> map_of (param_mapping cfg) k = Some c
           \<and> set_params_loop cfg self pre = (s1, None)
           \<and> store_set s1 k x = (s', None)
           \<and> cuml_params s' = cuml_params s1
           \<and> map_of (cuml_params s') k = map_of (cuml_params self) k
           \<and> ((\<forall>k' \<in> fst ` set pre. map_of (param_mapping cfg) k' \<noteq> Some c) \<longrightarrow>
                 map_of (cuml_params s') c = map_of (cuml_params self) c)"
proof -
  from raised have na: "check_aliases (param_mapping cfg) kwargs = None"
    by (cases "check_aliases (param_mapping cfg) kwargs")
       (auto simp: set_params_def dest: check_aliases_is_alias)
  with raised have "set_params_loop cfg self kwargs = (s', Some (UnsupportedValue x c S))"
    by (simp add: set_params_def)
  from set_params_loop_error[OF this] obtain pre k v post s1 where
    kw: "kwargs = pre @ (k, v) # post" and pre: "set_params_loop cfg self pre = (s1, None)"
    and at_k: "set_param cfg s1 k v = (s', Some (UnsupportedValue x c S))"
    by blast
  from set_param_unsupported_value[OF at_k] have xv: "x = v"
    and kc: "map_of (param_mapping cfg) k = Some c"
    and s': "store_set s1 k v = (s', None)"
    by blast+
  have tbl: "cuml_params s' = cuml_params s1" using store_set_frame[OF s'] by simp
  have key: "map_of (cuml_params s') k = map_of (cuml_params self) k"
    using earlier_items_keep_entry[OF pre kw dist na] tbl by simp
  have nat: "map_of (cuml_params s') c = map_of (cuml_params self) c"
    if free: "\<forall>k' \<in> fst ` set pre. map_of (param_mapping cfg) k' \<noteq> Some c"
  proof (rule ccontr)
    assume "map_of (cuml_params s') c \<noteq> map_of (cuml_params self) c"
    with tbl have "map_of (cuml_params s1) c \<noteq> map_of (cuml_params self) c" by simp
    from set_params_loop_frame(2)[OF pre this] free have cpre: "c \<in> fst ` set pre" by blast
    with kw dist have "c \<noteq> k" by auto
    moreover have "(k, c) \<in> set (param_mapping cfg)" using kc by (rule map_of_SomeD)
    moreover have "has_key kwargs k" "has_key kwargs c" using kw cpre by (auto simp: has_key_def)
    ultimately show False using na by (auto simp: check_aliases_None)
  qed
  from kw xv kc pre s' tbl key nat show ?thesis by blast
qed

text \<open>
  Claim C9 at the linear regression object: \<^verbatim>\<open>set_params(solver="normal", loss="huber")\<close>
  applies \<open>solver\<close> and raises at \<open>loss\<close>.
\<close>

theorem set_params_unsupported_value_partial_witness:
  "set_params linear_regression linear_regression_obj
       [(''solver'', PStr ''normal''), (''loss'', PStr ''huber'')]
     = (linear_regression_obj\<lparr>paramMap := [(''solver'', PStr ''normal''), (''loss'', PStr ''huber'')]\<rparr>,
        Some (UnsupportedValue (PStr ''huber'') ''loss'' {''squared_loss''}))
   \<and> distinct (map fst [(''solver'', PStr ''normal''), (''loss'', PStr ''huber'')])
   \<and> (\<exists>pre k post s1.
         [(''solver'', PStr ''normal''), (''loss'', PStr ''huber'')] = pre @ (k, PStr ''huber'') # post
         \<and> map_of (param_mapping linear_regression) k = Some ''loss''
         \<and> set_params_loop linear_regression linear_regression_obj pre = (s1, None)
         \<and> (\<forall>k' \<in> fst ` set pre. map_of (param_mapping linear_regression) k' \<noteq> Some ''loss'')
         \<and> cuml_params s1 = cuml_params linear_regression_obj
         \<and> map_of (cuml_params linear_regression_obj) k = Some (PStr ''squared_loss''))"
proof -
  let ?kw = "[(''solver'', PStr ''normal''), (''loss'', PStr ''huber'')]"
  let ?s' = "linear_regression_obj\<lparr>paramMap := [(''solver'', PStr ''normal''), (''loss'', PStr ''huber'')]\<rparr>"
  have raised: "set_params linear_regression linear_regression_obj ?kw
     = (?s', Some (UnsupportedValue (PStr ''huber'') ''loss'' {''squared_loss''}))"
    by (simp add: ex_defs run_defs)
  have dist: "distinct (map fst ?kw)" by simp
  from set_params_unsupported_value_partial[OF raised dist] obtain pre k post s1 where
    kw: "?kw = pre @ (k, PStr ''huber'') # post"
    and kc: "map_of (param_mapping linear_regression) k = Some ''loss''"
    and pre: "set_params_loop linear_regression linear_regression_obj pre = (s1, None)"
    and tbl: "cuml_params ?s' = cuml_params s1"
    and key: "map_of (cuml_params ?s') k = map_of (cuml_params linear_regression_obj) k"
    and nat: "(\<forall>k' \<in> fst ` set pre. map_of (param_mapping linear_regression) k' \<noteq> Some ''loss'') \<longrightarrow>
                 map_of (cuml_params ?s') ''loss'' = map_of (cuml_params linear_regression_obj) ''loss''"
    by blast
  from kc have k: "k = ''loss''"
    by (simp add: linear_regression_def split: if_splits)
  from kw have "pre = [(''solver'', PStr ''normal'')]"
    by (auto simp: Cons_eq_append_conv)
  then have free: "\<forall>k' \<in> fst ` set pre. map_of (param_mapping linear_regression) k' \<noteq> Some ''loss''"
    by (simp add: linear_regression_def)
  with nat have "map_of (cuml_params ?s') ''loss'' = map_of (cuml_params linear_regression_obj) ''loss''"
    by blast
  then have "map_of (cuml_params linear_regression_obj) k = Some (PStr ''squared_loss'')"
    by (simp add: k linear_regression_obj_def)
  moreover from tbl have "cuml_params s1 = cuml_params linear_regression_obj" by simp
  ultimately show ?thesis using raised dist kw kc pre free by blast
qed

lemma set_params_num_workers_str:
  "set_params pca pca_obj [(''num_workers'', PStr ''4'')]
     = (pca_obj, Some (InvalidParamValue ''num_workers'' (PStr ''4'')))"
  by (simp add: ex_defs run_defs)




section \<open>Properties of \<^verbatim>\<open>_get_cuml_params_default\<close>\<close>

lemma map_of_dict_update:
  "distinct (map fst other) \<Longrightarrow> map_of (dict_update acc other) = map_of acc ++ map_of other"
proof (induction other arbitrary: acc)
  case Nil
  then show ?case by (simp add: dict_update_def)
next
  case (Cons p other)
  from Cons.prems have d: "distinct (map fst other)" and fresh: "fst p \<notin> dom (map_of other)"
    by (auto simp: dom_map_of_conv_image_fst)
  have "map_of (dict_update acc (p # other))
        = map_of (dict_update (AList.update (fst p) (snd p) acc) other)"
    by (simp add: dict_update_def)
  also have "\<dots> = (map_of acc)(fst p \<mapsto> snd p) ++ map_of other"
    by (simp only: Cons.IH[OF d] AList.update_conv')
  also have "\<dots> = map_of acc ++ map_of (p # other)"
    using fresh by (cases p) (auto simp: map_add_def fun_eq_iff split: option.splits)
  finally show ?case .
qed

lemma map_of_filter_excludes:
  "map_of (filter (\<lambda>p. fst p \<notin> set excl) sig) x = (if x \<in> set excl then None else map_of sig x)"
  by (induction sig) auto

lemma collect_defaults_merged:
  assumes "\<forall>sig \<in> set sigs. distinct (map fst sig)"
  shows "\<exists>d. collect_defaults excl acc (map PyClass sigs) = Inr d
           \<and> (\<forall>x. map_of d x =
                 (case (if x \<in> set excl then None else spec_merged_defaults sigs x) of
                    Some v \<Rightarrow> Some v
                  | None \<Rightarrow> map_of acc x))"
  using assms
proof (induction sigs arbitrary: acc)
  case Nil
  then show ?case by simp
next
  case (Cons sig sigs)
  let ?p = "dict_update acc (filter (\<lambda>p. fst p \<notin> set excl) sig)"
  from Cons.prems have ds: "distinct (map fst (filter (\<lambda>p. fst p \<notin> set excl) sig))"
    and rest: "\<forall>sig \<in> set sigs. distinct (map fst sig)"
    by (simp_all add: distinct_map_filter)
  from Cons.IH[OF rest, of ?p] obtain d where
    d: "collect_defaults excl ?p (map PyClass sigs) = Inr d"
    and look: "\<And>x. map_of d x =
                 (case (if x \<in> set excl then None else spec_merged_defaults sigs x) of
                    Some v \<Rightarrow> Some v
                  | None \<Rightarrow> map_of ?p x)"
    by blast
  have "map_of d x =
          (case (if x \<in> set excl then None else spec_merged_defaults (sig # sigs) x) of
             Some v \<Rightarrow> Some v
           | None \<Rightarrow> map_of acc x)" for x
    by (simp add: look map_of_dict_update[OF ds] map_add_def map_of_filter_excludes
             split: option.splits)
  with d show ?case by simp
qed

text \<open>
  Claim C8. For native classes that can all be introspected, the result of
  \<^verbatim>\<open>_get_cuml_params_default\<close> maps no excluded name, and maps every other name to the
  default of the last class of the list that has a parameter of that name.
\<close>

theorem get_cuml_params_default_later_class_wins:
  assumes "cuml_cls cfg = Some (map PyClass sigs)"
    and "\<forall>sig \<in> set sigs. distinct (map fst sig)"
  shows "\<exists>d. get_cuml_params_default cfg = Inr d
           \<and> (\<forall>x. map_of d x =
                 (if x \<in> set (param_excludes cfg) then None else spec_merged_defaults sigs x))"
proof -
  from collect_defaults_merged[OF assms(2), of "param_excludes cfg" "[]"] obtain d where
    "collect_defaults (param_excludes cfg) [] (map PyClass sigs) = Inr d"
    and "\<And>x. map_of d x =
           (case (if x \<in> set (param_excludes cfg) then None else spec_merged_defaults sigs x) of
              Some v \<Rightarrow> Some v
            | None \<Rightarrow> map_of [] x)"
    by blast
  then show ?thesis
    using assms(1) by (auto simp: get_cuml_params_default_def split: option.splits)
qed

text \<open>
  Claim C8 at two classes whose parameter \<open>x\<close> defaults to 1 and to 2: the result maps
  \<open>x\<close> to 2.
\<close>

theorem get_cuml_params_default_later_class_wins_witness:
  "cuml_cls two_classes = Some (map PyClass [ [(''x'', PInt 1)], [(''x'', PInt 2)]])
   \<and> distinct (map fst [(''x'', PInt 1)]) \<and> distinct (map fst [(''x'', PInt 2)])
   \<and> get_cuml_params_default two_classes = Inr [(''x'', PInt 2)]
   \<and> spec_merged_defaults [ [(''x'', PInt 1)], [(''x'', PInt 2)]] ''x'' = Some (PInt 2)"
proof -
  have c: "cuml_cls two_classes = Some (map PyClass [ [(''x'', PInt 1)], [(''x'', PInt 2)]])"
    by (simp add: two_classes_def)
  have d: "\<forall>sig \<in> set [ [(''x'', PInt 1)], [(''x'', PInt (2::int))]]. distinct (map fst sig)"
    by simp
  from get_cuml_params_default_later_class_wins[OF c d] obtain dd where
    r: "get_cuml_params_default two_classes = Inr dd"
    and l: "\<forall>x. map_of dd x = (if x \<in> set (param_excludes two_classes) then None
                  else spec_merged_defaults [ [(''x'', PInt 1)], [(''x'', PInt 2)]] x)"
    by blast
  have "get_cuml_params_default two_classes = Inr [(''x'', PInt 2)]"
    by (simp add: two_classes_def run_defs)
  with r have dd: "dd = [(''x'', PInt 2)]" by simp
  from l have "map_of dd ''x'' = spec_merged_defaults [ [(''x'', PInt 1)], [(''x'', PInt 2)]] ''x''"
    by (simp add: two_classes_def)
  with dd r c show ?thesis by simp
qed

section \<open>Properties of \<^verbatim>\<open>initialize_cuml_params\<close>\<close>

lemma applied_value_cuml_params [simp]:
  "spec_applied_value cfg (s\<lparr>cuml_params := t\<rparr>) sp cp = spec_applied_value cfg s sp cp"
  by (simp add: spec_applied_value_def)

lemma overlay_cuml_params [simp]:
  "spec_overlay cfg (s\<lparr>cuml_params := t\<rparr>) pm tbl = spec_overlay cfg s pm tbl"
  by (induction pm arbitrary: tbl) auto

lemma init_loop_overlay:
  "init_loop cfg s pm = (s', None) \<Longrightarrow>
     s' = s\<lparr>cuml_params := cuml_params s'\<rparr>
   \<and> map_of (cuml_params s') = spec_overlay cfg s pm (map_of (cuml_params s))
   \<and> (\<forall>(sp, cp) \<in> set pm. hasParam s sp
         \<and> (has_key (defaultParamMap s) sp \<longrightarrow> spec_applied_value cfg s sp cp \<noteq> None))"
proof (induction pm arbitrary: s)
  case Nil
  then show ?case by simp
next
  case (Cons p pm)
  obtain sp cp where p: "p = (sp, cp)" by (cases p)
  from Cons.prems p have hp: "hasParam s sp"
    by (auto simp: hasDefault_def split: if_splits)
  show ?case
  proof (cases "has_key (defaultParamMap s) sp")
    case False
    with Cons.prems p hp have "init_loop cfg s pm = (s', None)"
      by (simp add: hasDefault_def)
    from Cons.IH[OF this] False hp p show ?thesis by simp
  next
    case True
    with Cons.prems p hp obtain v where v: "getOrDefault s sp = Inr v"
      and r: "and_then (set_cuml_value cfg s cp v) (\<lambda>s. init_loop cfg s pm) = (s', None)"
      by (auto simp: hasDefault_def split: sum.splits)
    from r obtain w where w: "native_value cfg cp v = Inr w"
      and l: "init_loop cfg (s\<lparr>cuml_params := AList.update cp w (cuml_params s)\<rparr>) pm = (s', None)"
      by (cases "native_value cfg cp v") (auto simp: set_cuml_value_native_value)
    from v w have av: "spec_applied_value cfg s sp cp = Some w"
      by (simp add: spec_applied_value_def)
    let ?s1 = "s\<lparr>cuml_params := AList.update cp w (cuml_params s)\<rparr>"
    from Cons.IH[OF l] have a: "s' = ?s1\<lparr>cuml_params := cuml_params s'\<rparr>"
      and b: "map_of (cuml_params s') = spec_overlay cfg ?s1 pm (map_of (cuml_params ?s1))"
      and c: "\<forall>(sp, cp) \<in> set pm. hasParam ?s1 sp
         \<and> (has_key (defaultParamMap ?s1) sp \<longrightarrow> spec_applied_value cfg ?s1 sp cp \<noteq> None)"
      by blast+
    from a have a': "s' = s\<lparr>cuml_params := cuml_params s'\<rparr>" by simp
    from b have b': "map_of (cuml_params s') = spec_overlay cfg s (p # pm) (map_of (cuml_params s))"
      by (simp add: p True av AList.update_conv' del: fun_upd_apply)
    from c have c': "\<forall>(sp, cp) \<in> set (p # pm). hasParam s sp
         \<and> (has_key (defaultParamMap s) sp \<longrightarrow> spec_applied_value cfg s sp cp \<noteq> None)"
      using hp av p by simp
    from a' b' c' show ?thesis by blast
  qed
qed

lemma overlay_other:
  "\<forall>(sp, cp) \<in> set pm. cp = n \<longrightarrow> \<not> has_key (defaultParamMap s) sp \<Longrightarrow>
   spec_overlay cfg s pm tbl n = tbl n"
  by (induction pm arbitrary: tbl) (auto split: option.splits)

lemma overlay_target:
  "distinct (map snd pm) \<Longrightarrow> (sp, cp) \<in> set pm \<Longrightarrow> has_key (defaultParamMap s) sp \<Longrightarrow>
   spec_applied_value cfg s sp cp = Some w \<Longrightarrow> spec_overlay cfg s pm tbl cp = Some w"
proof (induction pm arbitrary: tbl)
  case Nil
  then show ?case by simp
next
  case (Cons p pm)
  obtain sp' cp' where p: "p = (sp', cp')" by (cases p)
  show ?case
  proof (cases "(sp, cp) = p")
    case True
    from Cons.prems(1) True have "\<forall>(a, b) \<in> set pm. b = cp \<longrightarrow> \<not> has_key (defaultParamMap s) a"
      by force
    from overlay_other[OF this] True Cons.prems(3,4) show ?thesis by auto
  next
    case False
    with Cons.prems have "(sp, cp) \<in> set pm" "distinct (map snd pm)" by auto
    from Cons.IH[OF this(2) this(1) Cons.prems(3,4)] p show ?thesis by simp
  qed
qed

lemma initialize_linear_regression: "initialize_cuml_params linear_regression (linear_regression_obj\<lparr>cuml_params := []\<rparr>)
       = (linear_regression_obj, None)"
  by (simp add: ex_defs run_defs)

text \<open>
  Claim C4, as stated: every mapped Spark param that has a default or an explicit value
  is applied. The loop of \<^verbatim>\<open>initialize_cuml_params\<close> is guarded by \<^verbatim>\<open>hasDefault\<close>: the
  param \<open>k\<close> below has the explicit value 5 and no registered default, and after the
  call \<open>n_components\<close> still holds the native default, not 5.
\<close>

theorem initialize_skips_param_without_default:
  "getOrDefault pca_explicit_obj ''k'' = Inr (PInt 5)
   \<and> native_value pca ''n_components'' (PInt 5) = Inr (PInt 5)
   \<and> initialize_cuml_params pca pca_explicit_obj
       = (pca_explicit_obj\<lparr>cuml_params := [(''n_components'', PNone), (''whiten'', PBool False)]\<rparr>, None)"
  by (simp add: ex_defs run_defs native_value_def)

text \<open>
  Claim C4, amended. After \<^verbatim>\<open>initialize_cuml_params\<close> completes, only \<^verbatim>\<open>cuml_params\<close>
  has changed, and it equals the introspected native defaults overlaid, for every
  pair of the name mapping whose Spark param has a registered default, with the
  param's current value (\<^verbatim>\<open>getOrDefault\<close>) as the single-value setter stores it under the
  mapped native name. A native name that no such pair targets keeps its native default;
  when no two pairs share a native name, the entry of each such pair is the value the
  setter stores.
\<close>

theorem initialize_cuml_params_overlays_defaults:
  assumes "initialize_cuml_params cfg self = (s', None)"
  shows "\<exists>d. get_cuml_params_default cfg = Inr d
       \<and> s' = self\<lparr>cuml_params := cuml_params s'\<rparr>
       \<and> map_of (cuml_params s') = spec_overlay cfg self (param_mapping cfg) (map_of d)
       \<and> (\<forall>n. (\<forall>(sp, cp) \<in> set (param_mapping cfg). cp = n \<longrightarrow> \<not> has_key (defaultParamMap self) sp)
                \<longrightarrow> map_of (cuml_params s') n = map_of d n)
       \<and> (\<forall>(sp, cp) \<in> set (param_mapping cfg). has_key (defaultParamMap self) sp \<longrightarrow>
             (\<exists>v w. getOrDefault self sp = Inr v \<and> native_value cfg cp v = Inr w
                \<and> (distinct (map snd (param_mapping cfg)) \<longrightarrow> map_of (cuml_params s') cp = Some w)))"
proof -
  from assms obtain d where d: "get_cuml_params_default cfg = Inr d"
    and l: "init_loop cfg (self\<lparr>cuml_params := d\<rparr>) (param_mapping cfg) = (s', None)"
    by (cases "get_cuml_params_default cfg") (auto simp: initialize_cuml_params_def)
  from init_loop_overlay[OF l] have st: "s' = self\<lparr>cuml_params := cuml_params s'\<rparr>"
    and ov: "map_of (cuml_params s') = spec_overlay cfg self (param_mapping cfg) (map_of d)"
    and ap: "\<forall>(sp, cp) \<in> set (param_mapping cfg).
               has_key (defaultParamMap self) sp \<longrightarrow> spec_applied_value cfg self sp cp \<noteq> None"
    by (simp_all add: case_prod_unfold)
  have other: "map_of (cuml_params s') n = map_of d n"
    if "\<forall>(sp, cp) \<in> set (param_mapping cfg). cp = n \<longrightarrow> \<not> has_key (defaultParamMap self) sp" for n
    using overlay_other[OF that] ov by simp
  have target: "\<exists>v w. getOrDefault self sp = Inr v \<and> native_value cfg cp v = Inr w
                \<and> (distinct (map snd (param_mapping cfg)) \<longrightarrow> map_of (cuml_params s') cp = Some w)"
    if m: "(sp, cp) \<in> set (param_mapping cfg)" and hd: "has_key (defaultParamMap self) sp" for sp cp
  proof -
    from ap m hd obtain w where av: "spec_applied_value cfg self sp cp = Some w" by auto
    then obtain v where v: "getOrDefault self sp = Inr v" and w: "native_value cfg cp v = Inr w"
      by (auto simp: spec_applied_value_def split: sum.splits)
    have "map_of (cuml_params s') cp = Some w" if "distinct (map snd (param_mapping cfg))"
      using overlay_target[OF that m hd av] ov by simp
    with v w show ?thesis by blast
  qed
  from d st ov other target show ?thesis by blast
qed

text \<open>
  Claim C4 at the PCA object: \<open>k\<close> is mapped to \<open>n_components\<close> and has the default
  3; after the call the table contains \<open>n_components: 3\<close>.
\<close>

theorem initialize_cuml_params_overlays_defaults_witness:
  "initialize_cuml_params pca pca_obj
     = (pca_obj\<lparr>cuml_params := [(''n_components'', PInt 3), (''whiten'', PBool False)]\<rparr>, None)
   \<and> (''k'', ''n_components'') \<in> set (param_mapping pca)
   \<and> has_key (defaultParamMap pca_obj) ''k''
   \<and> distinct (map snd (param_mapping pca))
   \<and> getOrDefault pca_obj ''k'' = Inr (PInt 3)
   \<and> (\<exists>d w. get_cuml_params_default pca = Inr d
         \<and> native_value pca ''n_components'' (PInt 3) = Inr w
         \<and> map_of [(''n_components'', PInt 3), (''whiten'', PBool False)] ''n_components'' = Some w
         \<and> map_of [(''n_components'', PInt 3), (''whiten'', PBool False)]
             = spec_overlay pca pca_obj (param_mapping pca) (map_of d)
         \<and> map_of [(''n_components'', PInt 3), (''whiten'', PBool False)] ''whiten'' = map_of d ''whiten'')"
proof -
  let ?s = "pca_obj\<lparr>cuml_params := [(''n_components'', PInt 3), (''whiten'', PBool False)]\<rparr>"
  have run: "initialize_cuml_params pca pca_obj = (?s, None)"
    by (simp add: ex_defs run_defs)
  have m: "(''k'', ''n_components'') \<in> set (param_mapping pca)" by (simp add: pca_def)
  have hd: "has_key (defaultParamMap pca_obj) ''k''" by (simp add: has_key_def pca_obj_def)
  have dt: "distinct (map snd (param_mapping pca))" by (simp add: pca_def)
  have g: "getOrDefault pca_obj ''k'' = Inr (PInt 3)" by (simp add: ex_defs run_defs)
  have free: "\<forall>(sp, cp) \<in> set (param_mapping pca). cp = ''whiten'' \<longrightarrow> \<not> has_key (defaultParamMap pca_obj) sp"
    by (simp add: pca_def)
  from initialize_cuml_params_overlays_defaults[OF run] obtain d where
    d: "get_cuml_params_default pca = Inr d"
    and ov: "map_of (cuml_params ?s) = spec_overlay pca pca_obj (param_mapping pca) (map_of d)"
    and other: "\<forall>n. (\<forall>(sp, cp) \<in> set (param_mapping pca). cp = n \<longrightarrow> \<not> has_key (defaultParamMap pca_obj) sp)
                \<longrightarrow> map_of (cuml_params ?s) n = map_of d n"
    and target: "\<forall>(sp, cp) \<in> set (param_mapping pca). has_key (defaultParamMap pca_obj) sp \<longrightarrow>
             (\<exists>v w. getOrDefault pca_obj sp = Inr v \<and> native_value pca cp v = Inr w
                \<and> (distinct (map snd (param_mapping pca)) \<longrightarrow> map_of (cuml_params ?s) cp = Some w))"
    by blast
  from other free have wh: "map_of (cuml_params ?s) ''whiten'' = map_of d ''whiten''" by blast
  from target m hd dt obtain v w where "getOrDefault pca_obj ''k'' = Inr v"
    and "native_value pca ''n_components'' v = Inr w"
    and "map_of (cuml_params ?s) ''n_components'' = Some w"
    by blast
  with g have "native_value pca ''n_components'' (PInt 3) = Inr w"
    and "map_of (cuml_params ?s) ''n_components'' = Some w"
    by simp_all
  with d ov wh run m hd dt g show ?thesis by simp
qed

section \<open>Properties of \<^verbatim>\<open>clear\<close>\<close>

text \<open>
  Claim C5. \<^verbatim>\<open>clear\<close> is to re-apply the default through the single-value setter, so
  that a value mapping is applied. It assigns \<^verbatim>\<open>self.cuml_params[...]\<close> directly: clearing
  \<open>loss\<close> on the linear regression object leaves the Spark-side default
  \<^verbatim>\<open>"squaredError"\<close> in the table, where the setter keeps \<^verbatim>\<open>"squared_loss"\<close>.
\<close>

theorem clear_stores_untranslated_default:
  "clear linear_regression linear_regression_obj ''loss''
     = (linear_regression_obj\<lparr>cuml_params := [(''loss'', PStr ''squaredError''), (''solver'', PStr ''eig'')]\<rparr>, None)
   \<and> set_cuml_value linear_regression linear_regression_obj ''loss'' (PStr ''squaredError'')
     = (linear_regression_obj, None)"
  by (simp add: ex_defs run_defs)

section \<open>Properties of \<^verbatim>\<open>_copy_cuml_params\<close>\<close>

lemma copy_fold_keys:
  "map fst (fold (\<lambda>p acc. if has_key acc (fst p) then AList.update (fst p) (snd p) acc else acc) src tgt)
     = map fst tgt"
proof (induction src arbitrary: tgt)
  case Nil
  then show ?case by simp
next
  case (Cons p src)
  then show ?case by (simp add: AList.update_keys has_key_def)
qed

lemma copy_fold_lookup:
  "distinct (map fst src) \<Longrightarrow>
   map_of (fold (\<lambda>p acc. if has_key acc (fst p) then AList.update (fst p) (snd p) acc else acc) src tgt) k
     = (if has_key tgt k
        then (case map_of src k of Some v \<Rightarrow> Some v | None \<Rightarrow> map_of tgt k)
        else None)"
proof (induction src arbitrary: tgt)
  case Nil
  then show ?case by (simp add: has_key_map_of)
next
  case (Cons p src)
  from Cons.prems have d: "distinct (map fst src)" and fresh: "map_of src (fst p) = None"
    by (simp_all add: map_of_eq_None_iff)
  show ?case
  proof (cases "has_key tgt (fst p)")
    case True
    with Cons.IH[OF d, of "AList.update (fst p) (snd p) tgt"] fresh show ?thesis
      by (cases p) (auto simp: AList.update_conv' split: option.splits)
  next
    case False
    with Cons.IH[OF d, of tgt] fresh show ?thesis
      by (cases p) (auto split: option.splits)
  qed
qed

text \<open>
  Claim C7. \<^verbatim>\<open>_copy_cuml_params\<close> returns the target object with nothing but its
  \<^verbatim>\<open>cuml_params\<close> changed; the table keeps the target's keys, in their order, so no key
  is added; a key of both tables holds the source's value, and a key of the target
  alone keeps its value.
\<close>

theorem copy_cuml_params_overwrites_common_keys:
  assumes "distinct (map fst (cuml_params self))"
  shows "copy_cuml_params self to = to\<lparr>cuml_params := cuml_params (copy_cuml_params self to)\<rparr>
       \<and> map fst (cuml_params (copy_cuml_params self to)) = map fst (cuml_params to)
       \<and> (\<forall>k. map_of (cuml_params (copy_cuml_params self to)) k =
               (if has_key (cuml_params to) k
                then (case map_of (cuml_params self) k of
                        Some v \<Rightarrow> Some v
                      | None \<Rightarrow> map_of (cuml_params to) k)
                else None))"
  using assms by (simp add: copy_cuml_params_def copy_fold_keys copy_fold_lookup)

text \<open>
  Claim C7 at the source \<open>{a: 1, b: 2, c: 3}\<close> and the target \<open>{a: 0, b: 0}\<close>: the
  target becomes \<open>{a: 1, b: 2}\<close>.
\<close>

theorem copy_cuml_params_overwrites_common_keys_witness:
  "distinct (map fst (cuml_params (table_obj [(''a'', PInt 1), (''b'', PInt 2), (''c'', PInt 3)])))
   \<and> copy_cuml_params (table_obj [(''a'', PInt 1), (''b'', PInt 2), (''c'', PInt 3)])
                       (table_obj [(''a'', PInt 0), (''b'', PInt 0)])
       = table_obj [(''a'', PInt 1), (''b'', PInt 2)]
   \<and> map_of (cuml_params (copy_cuml_params (table_obj [(''a'', PInt 1), (''b'', PInt 2), (''c'', PInt 3)])
                       (table_obj [(''a'', PInt 0), (''b'', PInt 0)]))) ''c'' = None"
proof -
  let ?src = "table_obj [(''a'', PInt 1), (''b'', PInt 2), (''c'', PInt 3)]"
  let ?tgt = "table_obj [(''a'', PInt 0), (''b'', PInt 0)]"
  have d: "distinct (map fst (cuml_params ?src))" by (simp add: table_obj_def)
  have nc: "\<not> has_key (cuml_params ?tgt) ''c''" by (simp add: table_obj_def has_key_def)
  from copy_cuml_params_overwrites_common_keys[OF d, of ?tgt] nc
  have "map_of (cuml_params (copy_cuml_params ?src ?tgt)) ''c'' = None" by simp
  moreover have "copy_cuml_params ?src ?tgt = table_obj [(''a'', PInt 1), (''b'', PInt 2)]"
    by (simp add: table_obj_def copy_cuml_params_def has_key_def)
  ultimately show ?thesis using d by simp
qed

end
